theory Spec2Isabelle
  imports Complex_Main "HOL-Library.Multiset"
begin

section \<open>Python values shared by the three modules\<close>

text \<open>
  The three modules (\<^verbatim>\<open>db_insertion.py\<close>, \<^verbatim>\<open>index.py\<close>, \<^verbatim>\<open>query.py\<close>) raise and
  catch plain Python exceptions. Every exception of the model is an instance of
  \<^verbatim>\<open>Exception\<close> (so \<^verbatim>\<open>except Exception\<close> catches it); the constructor records the
  class and the message that \<^verbatim>\<open>str(e)\<close> returns.
\<close>

datatype exn = Exception string | RuntimeError string | ValueError string

fun str :: "exn \<Rightarrow> string" where
  "str (Exception m) = m"
| "str (RuntimeError m) = m"
| "str (ValueError m) = m"

text \<open>Decimal rendering of an integer, as an f-string interpolates it.\<close>

definition digit :: "nat \<Rightarrow> char" where
  "digit d = ''0123456789'' ! d"

fun str_nat :: "nat \<Rightarrow> string" where
  "str_nat n = (if n < 10 then [digit n] else str_nat (n div 10) @ [digit (n mod 10)])"

declare str_nat.simps [simp del]

definition str_int :: "int \<Rightarrow> string" where
  "str_int i = (if i < 0 then CHR ''-'' # str_nat (nat (- i)) else str_nat (nat i))"

text \<open>
  \<^verbatim>\<open>range(start, stop, step)\<close> for the loops of the source, which all count upwards
  from \<open>0\<close>: the offsets \<open>start, start + step, \<dots>\<close> below \<open>stop\<close>. With a negative step
  and \<open>start \<le> stop\<close> Python's range is empty, as here; a zero step raises
  \<^verbatim>\<open>ValueError\<close>, which \<open>py_range\<close> reports.
\<close>

function range_up :: "int \<Rightarrow> int \<Rightarrow> int \<Rightarrow> int list" where
  "range_up i stop step =
     (if 0 < step \<and> i < stop then i # range_up (i + step) stop step else [])"
  by pat_completeness auto
termination
  by (relation "measure (\<lambda>(i, stop, step). nat (stop - i))") auto

declare range_up.simps [simp del]

definition py_range :: "int \<Rightarrow> int \<Rightarrow> int \<Rightarrow> exn + int list" where
  "py_range start stop step =
     (if step = 0 then Inl (ValueError ''range() arg 3 must not be zero'')
      else Inr (range_up start stop step))"

text \<open>
  The slice \<^verbatim>\<open>xs[i:j]\<close> of a list or of the first axis of an array: negative
  indices count from the end, and both ends are clipped to the sequence.
\<close>

definition clip :: "int \<Rightarrow> int \<Rightarrow> nat" where
  "clip n i = nat (if i < 0 then max 0 (n + i) else min i n)"

definition py_slice :: "'a list \<Rightarrow> int \<Rightarrow> int \<Rightarrow> 'a list" where
  "py_slice xs i j =
     (let n = int (length xs); lo = clip n i; hi = clip n j
      in take (hi - lo) (drop lo xs))"

text \<open>
  A line printed by one of the modelled functions: one constructor for each of their
  \<^verbatim>\<open>print\<close> statements, carrying the values that the statement interpolates.
  \<open>index_params\<close> is the dictionary of index parameters.
\<close>

record index_params =
  index_type :: string
  metric_type :: string
  nlist :: int

datatype line =
    AttemptFailed int int  \<comment> \<open>\<^verbatim>\<open>Connection attempt {attempt + 1} failed, retrying in {retry_delay} seconds...\<close>\<close>
  | InsertedBatch int int  \<comment> \<open>\<^verbatim>\<open>Successfully inserted batch {start_idx}:{end_idx}\<close>\<close>
  | Printed "string option"  \<comment> \<open>\<^verbatim>\<open>print(error_msg)\<close>, \<^verbatim>\<open>print(error)\<close>; \<open>None\<close> prints as \<^verbatim>\<open>None\<close>\<close>
  | StartingInsertion nat  \<comment> \<open>\<^verbatim>\<open>Starting parallel insertion with {n_processes} processes...\<close>\<close>
  | InsertedCount nat nat  \<comment> \<open>\<^verbatim>\<open>Inserted {success_count}/{len(batches)} batches successfully\<close>\<close>
  | FailedBatches  \<comment> \<open>\<^verbatim>\<open>Failed batches:\<close>\<close>
  | Releasing  \<comment> \<open>\<^verbatim>\<open>Releasing collection from memory...\<close>\<close>
  | Dropping  \<comment> \<open>\<^verbatim>\<open>Dropping existing index...\<close>\<close>
  | Dropped  \<comment> \<open>\<^verbatim>\<open>Existing index dropped successfully\<close>\<close>
  | Creating index_params  \<comment> \<open>\<^verbatim>\<open>Creating new index with parameters: {index_params}\<close>\<close>
  | Created  \<comment> \<open>\<^verbatim>\<open>New index created successfully\<close>\<close>
  | Loading  \<comment> \<open>\<^verbatim>\<open>Loading collection into memory...\<close>\<close>
  | LoadedOk  \<comment> \<open>\<^verbatim>\<open>Collection loaded successfully\<close>\<close>
  | ErrorDuring string  \<comment> \<open>\<^verbatim>\<open>Error during index replacement: {str(e)}\<close>\<close>

section \<open>Ingestion: \<^verbatim>\<open>db_insertion.py\<close>\<close>

subsection \<open>Preparing the batches (\<^verbatim>\<open>main\<close>, lines 96--104)\<close>

text \<open>
  A batch is the tuple \<^verbatim>\<open>(name, start_idx, end_idx, batch_ids, batch_embeddings)\<close>.
  \<^verbatim>\<open>main\<close> fixes \<^verbatim>\<open>batch_size = 1000\<close>; the model takes it as a parameter.
  \<open>total_size\<close> is the length of the id list only.
\<close>

type_synonym 'v batch = "string \<times> int \<times> int \<times> int list \<times> 'v list"

definition start_idx :: "'v batch \<Rightarrow> int" where
  "start_idx b = fst (snd b)"

definition end_idx :: "'v batch \<Rightarrow> int" where
  "end_idx b = fst (snd (snd b))"

definition batch_ids :: "'v batch \<Rightarrow> int list" where
  "batch_ids b = fst (snd (snd (snd b)))"

definition batch_embeddings :: "'v batch \<Rightarrow> 'v list" where
  "batch_embeddings b = snd (snd (snd (snd b)))"

definition make_batch :: "string \<Rightarrow> int list \<Rightarrow> 'v list \<Rightarrow> int \<Rightarrow> int \<Rightarrow> 'v batch" where
  "make_batch name chunk_id corpus_embedding batch_size start =
     (let total_size = int (length chunk_id);
          end = min (start + batch_size) total_size
      in (name, start, end, py_slice chunk_id start end, py_slice corpus_embedding start end))"

definition prepare_batches ::
  "string \<Rightarrow> int list \<Rightarrow> 'v list \<Rightarrow> int \<Rightarrow> exn + 'v batch list" where
  "prepare_batches name chunk_id corpus_embedding batch_size =
     (case py_range 0 (int (length chunk_id)) batch_size of
        Inl e \<Rightarrow> Inl e
      | Inr starts \<Rightarrow> Inr (map (make_batch name chunk_id corpus_embedding batch_size) starts))"

subsection \<open>Checking the workers' results (\<^verbatim>\<open>main\<close>, lines 106--120)\<close>

text \<open>
  \<^verbatim>\<open>pool.map(insert_batch, batches)\<close> returns one pair \<^verbatim>\<open>(success, error)\<close> per batch,
  in batch order. \<open>check_results\<close> is the block after it: it counts the successes,
  prints the count, and on any failure prints the failed batches' errors and raises.
  It issues no call to the store.
\<close>

definition check_results ::
  "(bool \<times> string option) list \<Rightarrow> nat \<Rightarrow> line list \<times> (exn + unit)" where
  "check_results results n_batches =
     (let success_count = length (filter (\<lambda>(success, _). success) results);
          out = [InsertedCount success_count n_batches]
      in if success_count < n_batches
         then (out @ [FailedBatches]
                 @ map (\<lambda>(success, error). Printed error)
                     (filter (\<lambda>(success, error). \<not> success) results),
               Inl (Exception ''Some batches failed to insert''))
         else (out, Inr ()))"

text \<open>
  Lines 93--120 of \<^verbatim>\<open>main\<close>: build the batches, hand every batch to a worker of the
  pool, check the results. The worker stands for one run of \<^verbatim>\<open>insert_batch\<close> in a pool
  process; \<open>cpu_count\<close> is what \<^verbatim>\<open>cpu_count()\<close> returns. The value returned holds the
  batches handed to the pool, the lines printed and the outcome.
\<close>

definition insert_all ::
  "('v batch \<Rightarrow> bool \<times> string option) \<Rightarrow> nat \<Rightarrow> string \<Rightarrow> int list \<Rightarrow> 'v list \<Rightarrow> int
     \<Rightarrow> 'v batch list \<times> line list \<times> (exn + unit)" where
  "insert_all worker cpu_count name chunk_id corpus_embedding batch_size =
     (let n_processes = min 4 cpu_count
      in case prepare_batches name chunk_id corpus_embedding batch_size of
           Inl e \<Rightarrow> ([], [], Inl e)
         | Inr batches \<Rightarrow>
             (let results = map worker batches;
                  (out, r) = check_results results (length batches)
              in (batches, StartingInsertion n_processes # out, r)))"

section \<open>Index replacement: \<^verbatim>\<open>index.py\<close>\<close>

text \<open>
  The collection named by \<^verbatim>\<open>collection_name\<close> is either loaded into memory or not and
  has at most one index. Every call to the store may raise; \<open>fault\<close> says which calls do
  and with which message. A call that raises leaves the collection as it was.
\<close>

record collection =
  loaded :: bool
  index :: "index_params option"

datatype call =
    OpenCollection string  \<comment> \<open>\<^verbatim>\<open>Collection(collection_name)\<close>\<close>
  | IsLoaded
  | Release
  | HasIndex
  | DropIndex
  | CreateIndex string index_params
  | Load

record index_world =
  coll :: collection
  calls :: "call list"
  stdout :: "line list"

fun effect :: "call \<Rightarrow> collection \<Rightarrow> collection" where
  "effect Release c = c\<lparr>loaded := False\<rparr>"
| "effect DropIndex c = c\<lparr>index := None\<rparr>"
| "effect (CreateIndex field p) c = c\<lparr>index := Some p\<rparr>"
| "effect Load c = c\<lparr>loaded := True\<rparr>"
| "effect _ c = c"

type_synonym stmt = "index_world \<Rightarrow> index_world \<times> exn option"

definition store_call :: "(call \<Rightarrow> string option) \<Rightarrow> call \<Rightarrow> stmt" where
  "store_call fault c w =
     (let w1 = w\<lparr>calls := calls w @ [c]\<rparr>
      in case fault c of
           Some m \<Rightarrow> (w1, Some (Exception m))
         | None \<Rightarrow> (w1\<lparr>coll := effect c (coll w1)\<rparr>, None))"

definition say :: "line \<Rightarrow> stmt" where
  "say l w = (w\<lparr>stdout := stdout w @ [l]\<rparr>, None)"

text \<open>Statements in sequence: the first exception ends the sequence.\<close>

fun run :: "stmt list \<Rightarrow> stmt" where
  "run [] w = (w, None)"
| "run (s # ss) w = (case s w of (w1, None) \<Rightarrow> run ss w1 | (w1, Some e) \<Rightarrow> (w1, Some e))"

fun answer :: "call \<Rightarrow> collection \<Rightarrow> bool" where
  "answer IsLoaded c = loaded c"
| "answer HasIndex c = (index c \<noteq> None)"
| "answer _ c = True"

text \<open>\<^verbatim>\<open>if collection.query(): body\<close>, where the query itself may raise.\<close>

definition if_call :: "(call \<Rightarrow> string option) \<Rightarrow> call \<Rightarrow> stmt list \<Rightarrow> stmt" where
  "if_call fault q body w =
     (case store_call fault q w of
        (w1, Some e) \<Rightarrow> (w1, Some e)
      | (w1, None) \<Rightarrow> if answer q (coll w1) then run body w1 else (w1, None))"

definition default_index_params :: index_params where
  "default_index_params = \<lparr>index_type = ''IVF_FLAT'', metric_type = ''COSINE'', nlist = 768\<rparr>"

definition replace_index_try :: "(call \<Rightarrow> string option) \<Rightarrow> string \<Rightarrow> index_params \<Rightarrow> stmt" where
  "replace_index_try fault collection_name index_params =
     run [store_call fault (OpenCollection collection_name),
          if_call fault IsLoaded [say Releasing, store_call fault Release],
          if_call fault HasIndex [say Dropping, store_call fault DropIndex, say Dropped],
          say (Creating index_params),
          store_call fault (CreateIndex ''vector'' index_params),
          say Created,
          say Loading,
          store_call fault Load,
          say LoadedOk]"

definition replace_index ::
  "(call \<Rightarrow> string option) \<Rightarrow> string \<Rightarrow> index_params option \<Rightarrow> index_world
     \<Rightarrow> index_world \<times> bool" where
  "replace_index fault collection_name index_params w =
     (let params = (case index_params of None \<Rightarrow> default_index_params | Some p \<Rightarrow> p)
      in case replace_index_try fault collection_name params w of
           (w1, None) \<Rightarrow> (w1, True)
         | (w1, Some e) \<Rightarrow> (w1\<lparr>stdout := stdout w1 @ [ErrorDuring (str e)]\<rparr>, False))"

section \<open>Search: \<^verbatim>\<open>query.py\<close>\<close>

text \<open>
  A hit is the pair \<^verbatim>\<open>(hit.id, hit.distance)\<close>; scores are only passed on, so their
  type is a parameter. \<^verbatim>\<open>corpus_df\<close> is the table of rows \<^verbatim>\<open>(chunk_id, cid)\<close>. The
  source turns the selected \<^verbatim>\<open>cid\<close> column into a set and back into a list, whose
  order is that of the set's iteration; the model keeps the set.
\<close>

record 's search_result =
  qid :: int
  cid :: "int set"
  cosine :: "'s list"

definition aggregate :: "(int \<times> int) list \<Rightarrow> int \<Rightarrow> (int \<times> 's) list \<Rightarrow> 's search_result" where
  "aggregate corpus_df q result =
     (let list_index = map (\<lambda>hit. (fst hit, snd hit)) result;
          chunk_ids = map fst list_index;
          corpus_cid = set (map snd (filter (\<lambda>row. fst row \<in> set chunk_ids) corpus_df))
      in \<lparr>qid = q, cid = corpus_cid, cosine = map snd list_index\<rparr>)"



text \<open>
  The lookup of the specification's parent mapping: the parent ids that the table
  gives for one chunk id.
\<close>

definition parent_lookup :: "(int \<times> int) list \<Rightarrow> int \<Rightarrow> int set" where
  "parent_lookup corpus_df c = {p. (c, p) \<in> set corpus_df}"

section \<open>The connection context manager\<close>

text \<open>
  \<^verbatim>\<open>milvus_connection\<close> is a generator under \<^verbatim>\<open>@contextmanager\<close>. The store is the
  environment: \<open>connect_outcome env k\<close> is what the \<open>k\<close>-th call of
  \<^verbatim>\<open>connections.connect\<close> does (\<open>None\<close>: it succeeds; \<open>Some m\<close>: it raises an exception
  with message \<open>m\<close>), and likewise for \<^verbatim>\<open>connections.disconnect\<close>. A successful connect
  opens the handle of the alias, a successful disconnect closes it, a call that raises
  leaves the handles as they were. The host and the port are passed on to the store and
  decide nothing in the client.
\<close>

record store_env =
  connect_outcome :: "nat \<Rightarrow> string option"
  disconnect_outcome :: "nat \<Rightarrow> string option"

record conn_cfg =
  conn_alias :: string
  host :: string
  port :: string
  retries :: int
  retry_delay :: int

datatype event =
    Connect string "string option"
  | Disconnect string "string option"
  | Sleep int
  | Say line
  | EnterBody

text \<open>
  The world of one process: how many connect and disconnect calls it has made, the
  open handles, the events so far (oldest first), and the state that the body of the
  \<^verbatim>\<open>with\<close> statement works on.
\<close>

record 'a world =
  connects :: nat
  disconnects :: nat
  handles :: "string set"
  trace :: "event list"
  app :: 'a

definition connect :: "store_env \<Rightarrow> conn_cfg \<Rightarrow> 'a world \<Rightarrow> 'a world \<times> exn option" where
  "connect env cfg w =
     (let r = connect_outcome env (connects w);
          w1 = w\<lparr>connects := Suc (connects w), trace := trace w @ [Connect (conn_alias cfg) r]\<rparr>
      in case r of
           None \<Rightarrow> (w1\<lparr>handles := insert (conn_alias cfg) (handles w1)\<rparr>, None)
         | Some m \<Rightarrow> (w1, Some (Exception m)))"

text \<open>\<^verbatim>\<open>try: connections.disconnect(alias=alias)\<close> \<^verbatim>\<open>except: pass\<close>\<close>

definition disconnect_quietly :: "store_env \<Rightarrow> conn_cfg \<Rightarrow> 'a world \<Rightarrow> 'a world" where
  "disconnect_quietly env cfg w =
     (let r = disconnect_outcome env (disconnects w);
          w1 = w\<lparr>disconnects := Suc (disconnects w), trace := trace w @ [Disconnect (conn_alias cfg) r]\<rparr>
      in case r of
           None \<Rightarrow> w1\<lparr>handles := handles w1 - {conn_alias cfg}\<rparr>
         | Some m \<Rightarrow> w1)"

text \<open>
  The clause \<^verbatim>\<open>except Exception as e\<close>: on the last attempt it raises the new exception;
  otherwise it prints and sleeps, and the loop goes on. \<^verbatim>\<open>time.sleep\<close> raises
  \<^verbatim>\<open>ValueError\<close> for a negative delay, and that exception leaves the handler.
\<close>

definition on_exception :: "conn_cfg \<Rightarrow> int \<Rightarrow> exn \<Rightarrow> 'a world \<Rightarrow> 'a world \<times> exn option" where
  "on_exception cfg attempt e w =
     (if attempt = retries cfg - 1
      then (w, Some (Exception (''Failed to connect after '' @ str_int (retries cfg)
                                  @ '' attempts: '' @ str e)))
      else
        (let w1 = w\<lparr>trace := trace w @ [Say (AttemptFailed (attempt + 1) (retry_delay cfg))]\<rparr>
         in if retry_delay cfg < 0
            then (w1, Some (ValueError ''sleep length must be non-negative''))
            else (w1\<lparr>trace := trace w1 @ [Sleep (retry_delay cfg)]\<rparr>, None)))"

text \<open>
  A generator runs until it yields, returns or raises. \<open>Yielded attempt\<close> is the
  generator suspended at the \<^verbatim>\<open>yield\<close> of the iteration \<open>attempt\<close>. It is resumed by
  \<^verbatim>\<open>next\<close> or by \<^verbatim>\<open>throw\<close>, or closed.
\<close>

datatype gen_state = Yielded int | Returned | Raised exn

datatype signal = Next | Throw exn

subsection \<open>\<^verbatim>\<open>index.py\<close> and \<^verbatim>\<open>query.py\<close>: the \<^verbatim>\<open>finally\<close> clause inside the loop, no \<^verbatim>\<open>break\<close>\<close>






subsection \<open>\<^verbatim>\<open>db_insertion.py\<close>: \<^verbatim>\<open>break\<close> after the \<^verbatim>\<open>yield\<close>\<close>

text \<open>
  In \<^verbatim>\<open>db_insertion.py\<close> the \<^verbatim>\<open>finally\<close> clause (line 31) is indented like the \<^verbatim>\<open>for\<close>
  statement and there is no \<^verbatim>\<open>try\<close> at that level, which Python does not accept. Two
  placements of the clause make the function Python. \<open>AroundLoop\<close>: the clause where it
  stands, guarding the whole loop, so that the disconnect runs once, when the generator
  ends. \<open>InLoop\<close>: the clause inside the loop, closing the \<^verbatim>\<open>try\<close> of the iteration as
  in \<^verbatim>\<open>index.py\<close> and \<^verbatim>\<open>query.py\<close>, so that the disconnect runs when an iteration ends.
  The placement is a parameter of the model, and what is proved of this connector is
  proved for both placements.
\<close>

datatype finally_placement = AroundLoop | InLoop

text \<open>The \<^verbatim>\<open>finally\<close> clause at the end of an iteration, and at the end of the generator.\<close>

definition after_attempt ::
  "store_env \<Rightarrow> conn_cfg \<Rightarrow> finally_placement \<Rightarrow> 'a world \<Rightarrow> 'a world" where
  "after_attempt env cfg place w =
     (case place of InLoop \<Rightarrow> disconnect_quietly env cfg w | AroundLoop \<Rightarrow> w)"

definition at_end ::
  "store_env \<Rightarrow> conn_cfg \<Rightarrow> finally_placement \<Rightarrow> 'a world \<Rightarrow> 'a world" where
  "at_end env cfg place w =
     (case place of AroundLoop \<Rightarrow> disconnect_quietly env cfg w | InLoop \<Rightarrow> w)"

function ingest_connection_loop ::
  "store_env \<Rightarrow> conn_cfg \<Rightarrow> finally_placement \<Rightarrow> int \<Rightarrow> 'a world \<Rightarrow> 'a world \<times> gen_state" where
  "ingest_connection_loop env cfg place attempt w =
     (if attempt < retries cfg then
        (case connect env cfg w of
           (w1, None) \<Rightarrow> (w1, Yielded attempt)
         | (w1, Some e) \<Rightarrow>
             (case on_exception cfg attempt e w1 of
                (w2, Some e') \<Rightarrow> (after_attempt env cfg place w2, Raised e')
              | (w2, None) \<Rightarrow>
                  ingest_connection_loop env cfg place (attempt + 1)
                    (after_attempt env cfg place w2)))
      else (w, Returned))"
  by pat_completeness auto
termination
  by (relation "measure (\<lambda>(env, cfg, place, attempt, w). nat (retries cfg - attempt))") auto

declare ingest_connection_loop.simps [simp del]

text \<open>The clause around the loop runs when the generator ends, not when it yields.\<close>

definition ingest_finally ::
  "store_env \<Rightarrow> conn_cfg \<Rightarrow> finally_placement \<Rightarrow> 'a world \<times> gen_state
     \<Rightarrow> 'a world \<times> gen_state" where
  "ingest_finally env cfg place r =
     (case r of
        (w, Yielded attempt) \<Rightarrow> (w, Yielded attempt)
      | (w, g) \<Rightarrow> (at_end env cfg place w, g))"

definition ingest_connection_start ::
  "store_env \<Rightarrow> conn_cfg \<Rightarrow> finally_placement \<Rightarrow> 'a world \<Rightarrow> 'a world \<times> gen_state" where
  "ingest_connection_start env cfg place w =
     ingest_finally env cfg place (ingest_connection_loop env cfg place 0 w)"

text \<open>
  Resumed by \<^verbatim>\<open>next\<close>, the generator leaves the loop at the \<^verbatim>\<open>break\<close>; resumed by
  \<^verbatim>\<open>throw\<close>, it enters the handler.
\<close>

definition ingest_connection_resume ::
  "store_env \<Rightarrow> conn_cfg \<Rightarrow> finally_placement \<Rightarrow> int \<Rightarrow> signal \<Rightarrow> 'a world
     \<Rightarrow> 'a world \<times> gen_state" where
  "ingest_connection_resume env cfg place attempt sig w =
     ingest_finally env cfg place
       (case sig of
          Next \<Rightarrow> (after_attempt env cfg place w, Returned)
        | Throw e \<Rightarrow>
            (case on_exception cfg attempt e w of
               (w2, Some e') \<Rightarrow> (after_attempt env cfg place w2, Raised e')
             | (w2, None) \<Rightarrow>
                 ingest_connection_loop env cfg place (attempt + 1)
                   (after_attempt env cfg place w2)))"

text \<open>
  \<^verbatim>\<open>GeneratorExit\<close> at the \<^verbatim>\<open>yield\<close> passes the handler and runs the \<^verbatim>\<open>finally\<close>
  clause, wherever it is placed.
\<close>

definition ingest_connection_close ::
  "store_env \<Rightarrow> conn_cfg \<Rightarrow> finally_placement \<Rightarrow> int \<Rightarrow> 'a world \<Rightarrow> 'a world" where
  "ingest_connection_close env cfg place attempt w = disconnect_quietly env cfg w"

subsection \<open>The \<^verbatim>\<open>with\<close> statement over a generator context manager\<close>

text \<open>
  The body of a \<^verbatim>\<open>with\<close> statement returns a value, runs to its end, or raises; so does
  the statement. \<open>with_stmt\<close> follows \<^verbatim>\<open>__enter__\<close> and \<^verbatim>\<open>__exit__\<close> of
  \<^verbatim>\<open>contextlib\<close>: the body runs when the generator has yielded; afterwards the generator
  is resumed with \<^verbatim>\<open>next\<close>, or with \<^verbatim>\<open>throw\<close> when the body raised. A generator that
  yields a second time is closed and the statement raises \<^verbatim>\<open>RuntimeError\<close>; a generator
  that returns after \<^verbatim>\<open>throw\<close> suppresses the body's exception; an exception of the
  generator replaces the body's. The event \<open>EnterBody\<close> marks each execution of the body.
\<close>

datatype 'r completion = Returns 'r | Completes | Raises exn

definition with_stmt ::
  "('a world \<Rightarrow> 'a world \<times> gen_state) \<Rightarrow> (int \<Rightarrow> signal \<Rightarrow> 'a world \<Rightarrow> 'a world \<times> gen_state)
     \<Rightarrow> (int \<Rightarrow> 'a world \<Rightarrow> 'a world) \<Rightarrow> ('a \<Rightarrow> 'a \<times> 'r completion) \<Rightarrow> 'a world
     \<Rightarrow> 'a world \<times> 'r completion" where
  "with_stmt start resume close body w =
     (case start w of
        (w1, Raised e) \<Rightarrow> (w1, Raises e)
      | (w1, Returned) \<Rightarrow> (w1, Raises (RuntimeError ''generator didn't yield''))
      | (w1, Yielded attempt) \<Rightarrow>
          (let w2 = w1\<lparr>trace := trace w1 @ [EnterBody]\<rparr>;
               (s, r) = body (app w2);
               w3 = w2\<lparr>app := s\<rparr>
           in case r of
                Raises v \<Rightarrow>
                  (case resume attempt (Throw v) w3 of
                     (w4, Returned) \<Rightarrow> (w4, Completes)
                   | (w4, Raised e) \<Rightarrow> (w4, Raises e)
                   | (w4, Yielded attempt') \<Rightarrow>
                       (close attempt' w4,
                        Raises (RuntimeError ''generator didn't stop after throw()'')))
              | _ \<Rightarrow>
                  (case resume attempt Next w3 of
                     (w4, Returned) \<Rightarrow> (w4, r)
                   | (w4, Raised e) \<Rightarrow> (w4, Raises e)
                   | (w4, Yielded attempt') \<Rightarrow>
                       (close attempt' w4, Raises (RuntimeError ''generator didn't stop'')))))"


definition with_ingest_connection ::
  "store_env \<Rightarrow> conn_cfg \<Rightarrow> finally_placement \<Rightarrow> ('a \<Rightarrow> 'a \<times> 'r completion) \<Rightarrow> 'a world
     \<Rightarrow> 'a world \<times> 'r completion" where
  "with_ingest_connection env cfg place body w =
     with_stmt (ingest_connection_start env cfg place) (ingest_connection_resume env cfg place)
       (ingest_connection_close env cfg place) body w"

subsection \<open>The worker: \<^verbatim>\<open>insert_batch\<close>\<close>

text \<open>
  The state a worker's body works on: the batches it has inserted into the collection
  and the lines it has printed. \<open>open_fault\<close> and \<open>insert_fault\<close> say whether
  \<^verbatim>\<open>Collection(name=name)\<close> and \<^verbatim>\<open>collection.insert\<close> raise.
\<close>

record 'v worker =
  inserted :: "(int list \<times> 'v list) list"
  printed :: "line list"



subsection \<open>Observations on traces\<close>





section \<open>Batching: the ranges partition the dataset\<close>

lemma range_count_stop:
  fixes step :: int
  assumes "0 < step" "\<not> i < stop"
  shows "(stop - i + step - 1) div step \<le> 0"
  using pos_imp_zdiv_pos_iff [of step "stop - i + step - 1"] assms by linarith

lemma range_count_step:
  fixes step :: int
  assumes "0 < step" "i < stop"
  shows "nat ((stop - i + step - 1) div step) = Suc (nat ((stop - (i + step) + step - 1) div step))"
proof -
  have e: "stop - i + step - 1 = step + (stop - (i + step) + step - 1)" by simp
  have d: "(stop - i + step - 1) div step = (stop - (i + step) + step - 1) div step + 1"
    using assms(1) by (simp only: e div_add_self1)
  have nn: "0 \<le> (stop - (i + step) + step - 1) div step"
    using assms by (simp add: pos_imp_zdiv_nonneg_iff)
  show ?thesis using d nn by simp
qed

lemma range_up_closed:
  "0 < step \<Longrightarrow> range_up i stop step = map (\<lambda>k. i + int k * step) [0..<nat ((stop - i + step - 1) div step)]"
proof (induction i stop step rule: range_up.induct)
  case (1 i stop step)
  show ?case
  proof (cases "i < stop")
    case True
    have ih: "range_up (i + step) stop step =
        map (\<lambda>k. (i + step) + int k * step) [0..<nat ((stop - (i + step) + step - 1) div step)]"
      using 1 True by simp
    have "range_up i stop step = i # range_up (i + step) stop step"
      using True 1(2) by (subst range_up.simps) simp
    also have "\<dots> = map (\<lambda>k. i + int k * step) [0..<Suc (nat ((stop - (i + step) + step - 1) div step))]"
    proof -
      have u: "[0..<Suc m] = 0 # map Suc [0..<m]" for m
        by (simp add: upt_conv_Cons map_Suc_upt del: upt_Suc)
      show ?thesis unfolding ih u by (simp add: algebra_simps)
    qed
    finally show ?thesis
      using range_count_step [OF 1(2) True] by simp
  next
    case False
    then show ?thesis
      using range_count_stop [OF 1(2) False] by (subst range_up.simps) simp
  qed
qed

lemma count_less_iff:
  fixes s :: int
  assumes "0 < s"
  shows "int k < (n + s - 1) div s \<longleftrightarrow> int k * s < n"
proof -
  define q where "q = (n + s - 1) div s"
  define r where "r = (n + s - 1) mod s"
  have r: "0 \<le> r" "r < s" using assms by (simp_all add: r_def)
  have e: "n + s - 1 = q * s + r" by (simp add: q_def r_def)
  show ?thesis
  proof
    assume "int k < (n + s - 1) div s"
    then have "int k + 1 \<le> q" by (simp add: q_def)
    then have "(int k + 1) * s \<le> q * s" using assms by (simp add: mult_right_mono)
    then show "int k * s < n" using e r by (simp add: algebra_simps)
  next
    assume "int k * s < n"
    then have "int k * s < q * s" using e r by linarith
    then have "int k < q" using assms by (simp add: mult_less_cancel_right)
    then show "int k < (n + s - 1) div s" by (simp add: q_def)
  qed
qed

lemma concat_slices:
  "0 < step \<Longrightarrow> 0 \<le> i \<Longrightarrow>
   concat (map (\<lambda>st. py_slice xs st (min (st + step) (int (length xs)))) (range_up i (int (length xs)) step))
     = drop (nat i) xs"
proof (induction i "int (length xs)" step rule: range_up.induct)
  case (1 i step)
  show ?case
  proof (cases "i < int (length xs)")
    case True
    have ih: "concat (map (\<lambda>st. py_slice xs st (min (st + step) (int (length xs)))) (range_up (i + step) (int (length xs)) step))
      = drop (nat (i + step)) xs"
      using 1 True by simp
    have sl: "py_slice xs i (min (i + step) (int (length xs))) = take (nat (min (i + step) (int (length xs)) - i)) (drop (nat i) xs)"
      using True 1(2,3) by (simp add: py_slice_def clip_def Let_def min_def nat_diff_distrib)
    have "take (nat (min (i + step) (int (length xs)) - i)) (drop (nat i) xs) @ drop (nat (i + step)) xs = drop (nat i) xs"
    proof (cases "i + step \<le> int (length xs)")
      case True
      then have "nat (i + step) = nat step + nat i" using 1(2,3) by (simp add: nat_add_distrib)
      then show ?thesis using True 1(2) by (simp add: min_def flip: drop_drop)
    next
      case False
      then show ?thesis using True 1(2,3) by (simp add: min_def)
    qed
    then show ?thesis
      using True 1(2) ih sl by (subst range_up.simps) simp
  next
    case False
    then show ?thesis by (subst range_up.simps) simp
  qed
qed


lemma start_idx_make_batch [simp]: "start_idx (make_batch name ids emb s st) = st"
  by (simp add: make_batch_def start_idx_def Let_def)

lemma end_idx_make_batch [simp]:
  "end_idx (make_batch name ids emb s st) = min (st + s) (int (length ids))"
  by (simp add: make_batch_def end_idx_def Let_def)

lemma batch_ids_make_batch [simp]:
  "batch_ids (make_batch name ids emb s st) = py_slice ids st (min (st + s) (int (length ids)))"
  by (simp add: make_batch_def batch_ids_def Let_def)

lemma batch_embeddings_make_batch [simp]:
  "batch_embeddings (make_batch name ids emb s st) = py_slice emb st (min (st + s) (int (length ids)))"
  by (simp add: make_batch_def batch_embeddings_def Let_def)

lemma prepare_batches_closed:
  assumes "0 < s"
  shows "prepare_batches name ids emb s =
     Inr (map (\<lambda>k. make_batch name ids emb s (int k * s)) [0..<nat ((int (length ids) + s - 1) div s)])"
  using assms by (simp add: prepare_batches_def py_range_def range_up_closed comp_def)

lemma offset_bounds:
  fixes s :: int
  assumes "0 < s" "0 \<le> i"
  shows "int (nat (i div s)) * s \<le> i \<and> i < int (nat (i div s)) * s + s"
proof -
  define q where "q = i div s"
  define r where "r = i mod s"
  have e: "i = q * s + r" by (simp add: q_def r_def)
  have r: "0 \<le> r" "r < s" using assms by (simp_all add: r_def)
  have nn: "0 \<le> q" using assms by (simp add: q_def pos_imp_zdiv_nonneg_iff)
  have "q * s \<le> i \<and> i < q * s + s" using e r by linarith
  then show ?thesis using nn by (simp add: q_def)
qed

lemma offset_unique:
  fixes s :: int
  assumes "0 < s" "int k * s \<le> i" "i < int k * s + s"
  shows "k = nat (i div s)"
proof -
  have "i = s * int k + (i - int k * s)" by simp
  then have "i div s = int k"
    using assms int_div_pos_eq [of i s "int k" "i - int k * s"] by simp
  then show ?thesis by simp
qed


text \<open>
  Claim C2. For every id list of length \<open>N\<close> and every positive batch size, the batches
  built by \<^verbatim>\<open>main\<close> are the consecutive ranges \<open>[k * batch_size, min ((k + 1) * batch_size) N)\<close>:
  each has \<open>batch_size\<close> elements except possibly a shorter, non-empty last one, the ranges
  are pairwise disjoint, their union is \<open>[0, N)\<close>, every position lies in exactly one
  batch, and the id slices concatenate to the whole id list.
\<close>

theorem batches_partition:
  fixes chunk_id :: "int list" and corpus_embedding :: "'v list"
  assumes "0 < batch_size"
  shows "\<exists>bs. prepare_batches name chunk_id corpus_embedding batch_size = Inr bs
     \<and> length bs = nat ((int (length chunk_id) + batch_size - 1) div batch_size)
     \<and> (\<forall>k < length bs.
            start_idx (bs ! k) = int k * batch_size
          \<and> end_idx (bs ! k) = min (int k * batch_size + batch_size) (int (length chunk_id))
          \<and> batch_ids (bs ! k) = py_slice chunk_id (start_idx (bs ! k)) (end_idx (bs ! k)))
     \<and> (\<forall>k < length bs.
            end_idx (bs ! k) - start_idx (bs ! k) = batch_size
          \<or> (Suc k = length bs \<and> 0 < end_idx (bs ! k) - start_idx (bs ! k)
               \<and> end_idx (bs ! k) - start_idx (bs ! k) < batch_size))
     \<and> (\<forall>j k. j < k \<and> k < length bs \<longrightarrow>
            {start_idx (bs ! j)..<end_idx (bs ! j)} \<inter> {start_idx (bs ! k)..<end_idx (bs ! k)} = {})
     \<and> (\<Union>b \<in> set bs. {start_idx b..<end_idx b}) = {0..<int (length chunk_id)}
     \<and> (\<forall>i. 0 \<le> i \<and> i < int (length chunk_id) \<longrightarrow>
            (\<exists>!k. k < length bs \<and> start_idx (bs ! k) \<le> i \<and> i < end_idx (bs ! k)))
     \<and> concat (map batch_ids bs) = chunk_id"
proof -
  define N where "N = int (length chunk_id)"
  define nb where "nb = nat ((N + batch_size - 1) div batch_size)"
  define mk where "mk = (\<lambda>k. make_batch name chunk_id corpus_embedding batch_size (int k * batch_size))"
  define bs where "bs = map mk [0..<nb]"
  have pb: "prepare_batches name chunk_id corpus_embedding batch_size = Inr bs"
    using prepare_batches_closed [OF assms] by (simp add: bs_def mk_def nb_def N_def)
  have len: "length bs = nb" by (simp add: bs_def)
  have nth: "bs ! k = mk k" if "k < nb" for k using that by (simp add: bs_def)
  have st: "start_idx (mk k) = int k * batch_size" for k by (simp add: mk_def)
  have en: "end_idx (mk k) = min (int k * batch_size + batch_size) N" for k
    by (simp add: mk_def N_def)
  have ids: "batch_ids (mk k) = py_slice chunk_id (start_idx (mk k)) (end_idx (mk k))" for k
    by (simp add: mk_def)
  have Nnn: "0 \<le> N" by (simp add: N_def)
  have nb_iff: "k < nb \<longleftrightarrow> int k * batch_size < N" for k
  proof -
    have "0 \<le> (N + batch_size - 1) div batch_size"
      using assms Nnn by (simp add: pos_imp_zdiv_nonneg_iff)
    then have "k < nb \<longleftrightarrow> int k < (N + batch_size - 1) div batch_size"
      by (simp add: nb_def) linarith
    then show ?thesis using count_less_iff [OF assms] by simp
  qed
  have c1: "\<forall>k < length bs.
            start_idx (bs ! k) = int k * batch_size
          \<and> end_idx (bs ! k) = min (int k * batch_size + batch_size) N
          \<and> batch_ids (bs ! k) = py_slice chunk_id (start_idx (bs ! k)) (end_idx (bs ! k))"
    using len nth st en ids by simp
  have c2: "\<forall>k < length bs.
            end_idx (bs ! k) - start_idx (bs ! k) = batch_size
          \<or> (Suc k = length bs \<and> 0 < end_idx (bs ! k) - start_idx (bs ! k)
               \<and> end_idx (bs ! k) - start_idx (bs ! k) < batch_size)"
  proof (intro allI impI)
    fix k assume k: "k < length bs"
    then have kn: "k < nb" using len by simp
    then have lt: "int k * batch_size < N" using nb_iff by simp
    show "end_idx (bs ! k) - start_idx (bs ! k) = batch_size
          \<or> (Suc k = length bs \<and> 0 < end_idx (bs ! k) - start_idx (bs ! k)
               \<and> end_idx (bs ! k) - start_idx (bs ! k) < batch_size)"
    proof (cases "int k * batch_size + batch_size \<le> N")
      case True
      then show ?thesis using kn by (simp add: nth st en)
    next
      case False
      then have "\<not> int (Suc k) * batch_size < N" by (simp add: algebra_simps)
      then have "\<not> Suc k < nb" using nb_iff by blast
      then have "Suc k = nb" using kn by simp
      then show ?thesis using False lt kn len by (simp add: nth st en)
    qed
  qed
  have sep: "end_idx (mk j) \<le> start_idx (mk k)" if "j < k" for j k
  proof -
    have "int j + 1 \<le> int k" using that by simp
    then have "(int j + 1) * batch_size \<le> int k * batch_size"
      using assms by (simp add: mult_right_mono)
    then show ?thesis by (simp add: st en algebra_simps)
  qed
  have c3: "\<forall>j k. j < k \<and> k < length bs \<longrightarrow>
            {start_idx (bs ! j)..<end_idx (bs ! j)} \<inter> {start_idx (bs ! k)..<end_idx (bs ! k)} = {}"
  proof (intro allI impI)
    fix j k assume a: "j < k \<and> k < length bs"
    then have "bs ! j = mk j" "bs ! k = mk k" using len nth by simp_all
    then show "{start_idx (bs ! j)..<end_idx (bs ! j)} \<inter> {start_idx (bs ! k)..<end_idx (bs ! k)} = {}"
      using sep [of j k] a by auto
  qed
  have cover: "\<exists>k. k < nb \<and> start_idx (mk k) \<le> i \<and> i < end_idx (mk k)" if "0 \<le> i" "i < N" for i
  proof -
    let ?k = "nat (i div batch_size)"
    have b: "int ?k * batch_size \<le> i \<and> i < int ?k * batch_size + batch_size"
      using offset_bounds [OF assms that(1)] .
    then have "int ?k * batch_size < N" using that by linarith
    then have "?k < nb" using nb_iff by simp
    then show ?thesis using b that by (auto simp: st en)
  qed
  have c4: "(\<Union>b \<in> set bs. {start_idx b..<end_idx b}) = {0..<N}"
  proof (intro set_eqI iffI)
    fix x assume "x \<in> (\<Union>b \<in> set bs. {start_idx b..<end_idx b})"
    then obtain k where "k < nb" "x \<in> {start_idx (mk k)..<end_idx (mk k)}"
      by (auto simp: bs_def)
    then show "x \<in> {0..<N}" using assms by (auto simp: st en intro: order_trans [rotated])
  next
    fix x assume "x \<in> {0..<N}"
    then obtain k where "k < nb" "start_idx (mk k) \<le> x" "x < end_idx (mk k)"
      using cover [of x] by auto
    then show "x \<in> (\<Union>b \<in> set bs. {start_idx b..<end_idx b})"
      by (auto simp: bs_def)
  qed
  have c5: "\<forall>i. 0 \<le> i \<and> i < N \<longrightarrow>
            (\<exists>!k. k < length bs \<and> start_idx (bs ! k) \<le> i \<and> i < end_idx (bs ! k))"
  proof (intro allI impI)
    fix i assume i: "0 \<le> i \<and> i < N"
    then obtain k where k: "k < nb" "start_idx (mk k) \<le> i" "i < end_idx (mk k)"
      using cover [of i] by auto
    show "\<exists>!k. k < length bs \<and> start_idx (bs ! k) \<le> i \<and> i < end_idx (bs ! k)"
    proof (rule ex1I [of _ k])
      show "k < length bs \<and> start_idx (bs ! k) \<le> i \<and> i < end_idx (bs ! k)"
        using k len nth by simp
    next
      fix k' assume a: "k' < length bs \<and> start_idx (bs ! k') \<le> i \<and> i < end_idx (bs ! k')"
      then have kn: "k' < nb" using len by simp
      then have k': "k' < nb" "start_idx (mk k') \<le> i" "i < end_idx (mk k')"
        using a nth [OF kn] by simp_all
      have "k' = nat (i div batch_size)"
        using offset_unique [OF assms, of k' i] k' by (simp add: st en)
      moreover have "k = nat (i div batch_size)"
        using offset_unique [OF assms, of k i] k by (simp add: st en)
      ultimately show "k' = k" by simp
    qed
  qed
  have c6: "concat (map batch_ids bs) = chunk_id"
  proof -
    have "map batch_ids bs =
        map (\<lambda>st. py_slice chunk_id st (min (st + batch_size) (int (length chunk_id))))
          (range_up 0 (int (length chunk_id)) batch_size)"
      using assms by (simp add: bs_def mk_def nb_def N_def range_up_closed comp_def)
    then show ?thesis using concat_slices [OF assms, of 0 chunk_id] by simp
  qed
  show ?thesis
    using pb len c1 c2 c3 c4 c5 c6 unfolding N_def [symmetric] nb_def [symmetric]
    by (intro exI [of _ bs]) simp
qed

text \<open>The scenario of the specification: four ids, batch size two, ranges \<open>[0, 2)\<close> and \<open>[2, 4)\<close>.\<close>

theorem batches_partition_witness:
  "0 < (2::int) \<and>
   prepare_batches ''SOICT'' [1, 2, 3, 4] [10, 20, 30, 40 :: nat] 2 =
     Inr [(''SOICT'', 0, 2, [1, 2], [10, 20]), (''SOICT'', 2, 4, [3, 4], [30, 40])] \<and>
   (\<exists>bs. prepare_batches ''SOICT'' [1, 2, 3, 4] [10, 20, 30, 40 :: nat] 2 = Inr bs
      \<and> length bs = 2 \<and> concat (map batch_ids bs) = [1, 2, 3, 4])"
proof -
  have h: "0 < (2::int)" by simp
  have e: "prepare_batches ''SOICT'' [1, 2, 3, 4] [10, 20, 30, 40 :: nat] 2 =
     Inr [(''SOICT'', 0, 2, [1, 2], [10, 20]), (''SOICT'', 2, 4, [3, 4], [30, 40])]"
    by (simp add: prepare_batches_def py_range_def range_up.simps make_batch_def py_slice_def
        clip_def Let_def)
  show ?thesis
    using h e batches_partition [OF h, of "''SOICT''" "[1, 2, 3, 4]" "[10, 20, 30, 40 :: nat]"]
    by auto
qed

section \<open>Search: aggregation and query indices\<close>

lemma cid_aggregate:
  "cid (aggregate corpus_df q hits) = (\<Union>h \<in> set hits. parent_lookup corpus_df (fst h))"
  by (force simp: aggregate_def parent_lookup_def Let_def)

lemma cosine_aggregate: "cosine (aggregate corpus_df q hits) = map snd hits"
  by (simp add: aggregate_def Let_def)


text \<open>
  Claim C6. For one query's hit list the aggregator's parent-id set is the union of the
  parent-mapping lookups of the hit ids (a set, so deduplicated), and it is the same for
  every permutation of the hit list. The similarity sequence is the hits' scores in
  hit order, one per hit, neither deduplicated nor reordered. An empty hit list gives the
  empty set and the empty sequence.
\<close>

theorem aggregate_parents_and_scores:
  "cid (aggregate corpus_df q hits) = (\<Union>h \<in> set hits. parent_lookup corpus_df (fst h))
   \<and> (mset hits' = mset hits \<longrightarrow>
        cid (aggregate corpus_df q hits') = cid (aggregate corpus_df q hits))
   \<and> cosine (aggregate corpus_df q hits) = map snd hits
   \<and> length (cosine (aggregate corpus_df q hits)) = length hits
   \<and> cid (aggregate corpus_df q []) = {}
   \<and> cosine (aggregate corpus_df q []) = []"
proof -
  have "set hits' = set hits" if "mset hits' = mset hits"
    using that by (metis set_mset_mset)
  then show ?thesis
    by (simp add: cid_aggregate cosine_aggregate)
qed

text \<open>
  The scenario of the specification: hits \<open>10, 11, 12\<close> with parents \<open>100, 100, 200\<close> give
  the parent set \<open>{100, 200}\<close> and three scores, so the score sequence is longer than the
  parent set; a permuted hit list gives the same parent set.
\<close>

theorem aggregate_parents_and_scores_witness:
  "mset [(12, 7 / 10), (10, 9 / 10), (11, 8 / 10 :: real)] = mset [(10, 9 / 10), (11, 8 / 10), (12, 7 / 10)]
   \<and> cid (aggregate [(10, 100), (11, 100), (12, 200)] 5 [(12, 7 / 10), (10, 9 / 10), (11, 8 / 10 :: real)])
       = cid (aggregate [(10, 100), (11, 100), (12, 200)] 5 [(10, 9 / 10), (11, 8 / 10), (12, 7 / 10 :: real)])
   \<and> aggregate [(10, 100), (11, 100), (12, 200)] 5 [(10, 9 / 10), (11, 8 / 10), (12, 7 / 10 :: real)]
       = \<lparr>qid = 5, cid = {100, 200}, cosine = [9 / 10, 8 / 10, 7 / 10]\<rparr>
   \<and> card (cid (aggregate [(10, 100), (11, 100), (12, 200)] 5 [(10, 9 / 10), (11, 8 / 10), (12, 7 / 10 :: real)]))
       < length (cosine (aggregate [(10, 100), (11, 100), (12, 200)] 5 [(10, 9 / 10), (11, 8 / 10), (12, 7 / 10 :: real)]))"
proof -
  have m: "mset [(12, 7 / 10), (10, 9 / 10), (11, 8 / 10 :: real)]
      = mset [(10::int, 9 / 10), (11, 8 / 10), (12, 7 / 10)]"
    by (simp add: add.commute)
  have a: "aggregate [(10, 100), (11, 100), (12, 200)] 5 [(10, 9 / 10), (11, 8 / 10), (12, 7 / 10 :: real)]
       = \<lparr>qid = 5, cid = {100, 200}, cosine = [9 / 10, 8 / 10, 7 / 10]\<rparr>"
    by (auto simp: aggregate_def Let_def)
  have c: "card {100, 200 :: int} = 2" by simp
  have p: "cid (aggregate [(10, 100), (11, 100), (12, 200)] 5 [(12, 7 / 10), (10, 9 / 10), (11, 8 / 10 :: real)])
       = cid (aggregate [(10, 100), (11, 100), (12, 200)] 5 [(10, 9 / 10), (11, 8 / 10), (12, 7 / 10 :: real)])"
    using m aggregate_parents_and_scores [of "[(10, 100), (11, 100), (12, 200)]" 5
        "[(10, 9 / 10), (11, 8 / 10), (12, 7 / 10 :: real)]"
        "[(12, 7 / 10), (10, 9 / 10), (11, 8 / 10 :: real)]"]
    by blast
  show ?thesis
    using m a c p by simp
qed









section \<open>Index replacement\<close>

lemmas replace_index_defs =
  replace_index_def replace_index_try_def if_call_def store_call_def say_def Let_def

text \<open>
  Claim C5. On a store whose calls succeed, \<open>replace_index\<close> returns \<^verbatim>\<open>True\<close> from every
  collection state, and calling it a second time with the same parameters returns
  \<^verbatim>\<open>True\<close> again and leaves the collection in the state the first call produced: loaded,
  with the index of the given (or default) parameters. The release and the drop are
  guarded by the collection's current state, so the second call performs both.
\<close>

theorem replace_index_idempotent:
  assumes "\<forall>c. fault c = None"
  shows "snd (replace_index fault name index_params w)
     \<and> snd (replace_index fault name index_params (fst (replace_index fault name index_params w)))
     \<and> coll (fst (replace_index fault name index_params (fst (replace_index fault name index_params w))))
         = coll (fst (replace_index fault name index_params w))
     \<and> coll (fst (replace_index fault name index_params w))
         = \<lparr>loaded = True,
            index = Some (case index_params of None \<Rightarrow> default_index_params | Some p \<Rightarrow> p)\<rparr>"
  using assms by (simp add: replace_index_defs)

text \<open>
  From a collection that is neither loaded nor indexed: the first call skips the release
  and the drop, the second performs them.
\<close>

theorem replace_index_idempotent_witness:
  "(\<forall>c. (\<lambda>c. None :: string option) c = None)
   \<and> coll (fst (replace_index (\<lambda>c. None) ''SOICT'' None
        (fst (replace_index (\<lambda>c. None) ''SOICT'' None
           \<lparr>coll = \<lparr>loaded = False, index = None\<rparr>, calls = [], stdout = []\<rparr>))))
       = \<lparr>loaded = True, index = Some default_index_params\<rparr>
   \<and> calls (fst (replace_index (\<lambda>c. None) ''SOICT'' None
        (fst (replace_index (\<lambda>c. None) ''SOICT'' None
           \<lparr>coll = \<lparr>loaded = False, index = None\<rparr>, calls = [], stdout = []\<rparr>))))
       = [OpenCollection ''SOICT'', IsLoaded, HasIndex, CreateIndex ''vector'' default_index_params, Load,
          OpenCollection ''SOICT'', IsLoaded, Release, HasIndex, DropIndex,
          CreateIndex ''vector'' default_index_params, Load]"
proof -
  have h: "\<forall>c. (\<lambda>c. None :: string option) c = None" by simp
  have c: "calls (fst (replace_index (\<lambda>c. None) ''SOICT'' None
        (fst (replace_index (\<lambda>c. None) ''SOICT'' None
           \<lparr>coll = \<lparr>loaded = False, index = None\<rparr>, calls = [], stdout = []\<rparr>))))
       = [OpenCollection ''SOICT'', IsLoaded, HasIndex, CreateIndex ''vector'' default_index_params, Load,
          OpenCollection ''SOICT'', IsLoaded, Release, HasIndex, DropIndex,
          CreateIndex ''vector'' default_index_params, Load]"
    by (simp add: replace_index_defs)
  show ?thesis
    using h c replace_index_idempotent [OF h, of "''SOICT''" None
        "\<lparr>coll = \<lparr>loaded = False, index = None\<rparr>, calls = [], stdout = []\<rparr>"]
    by simp
qed

text \<open>
  Claim C9, amended. When one of the lifecycle calls (release, drop, create, load) raises, and the
  calls made before it succeeded, \<open>replace_index\<close> makes no further call to the store,
  returns \<^verbatim>\<open>False\<close>, and prints the error line with the failing call's message directly
  after the progress line that announces the failing step. The collection stays as the
  calls before the failure left it: still loaded when the release fails, released but
  still indexed when the drop fails, without an index when the creation fails, indexed
  but not loaded when the load fails. Nothing is undone or retried. The value returned
  and the error line name no step.
\<close>

theorem replace_index_step_failure:
  assumes "params = (case index_params of None \<Rightarrow> default_index_params | Some p \<Rightarrow> p)"
    and "fault (OpenCollection name) = None" and "fault IsLoaded = None"
  shows
    "(loaded (coll w) \<and> fault Release = Some m \<longrightarrow>
        replace_index fault name index_params w =
          (w\<lparr>calls := calls w @ [OpenCollection name, IsLoaded, Release],
             stdout := stdout w @ [Releasing, ErrorDuring m]\<rparr>, False))
   \<and> ((loaded (coll w) \<longrightarrow> fault Release = None) \<and> fault HasIndex = None
        \<and> index (coll w) \<noteq> None \<and> fault DropIndex = Some m \<longrightarrow>
        replace_index fault name index_params w =
          (w\<lparr>coll := (coll w)\<lparr>loaded := False\<rparr>,
             calls := calls w @ [OpenCollection name, IsLoaded]
                @ (if loaded (coll w) then [Release] else []) @ [HasIndex, DropIndex],
             stdout := stdout w @ (if loaded (coll w) then [Releasing] else [])
                @ [Dropping, ErrorDuring m]\<rparr>, False))
   \<and> ((loaded (coll w) \<longrightarrow> fault Release = None) \<and> fault HasIndex = None
        \<and> (index (coll w) \<noteq> None \<longrightarrow> fault DropIndex = None)
        \<and> fault (CreateIndex ''vector'' params) = Some m \<longrightarrow>
        replace_index fault name index_params w =
          (w\<lparr>coll := \<lparr>loaded = False, index = None\<rparr>,
             calls := calls w @ [OpenCollection name, IsLoaded]
                @ (if loaded (coll w) then [Release] else []) @ [HasIndex]
                @ (if index (coll w) \<noteq> None then [DropIndex] else [])
                @ [CreateIndex ''vector'' params],
             stdout := stdout w @ (if loaded (coll w) then [Releasing] else [])
                @ (if index (coll w) \<noteq> None then [Dropping, Dropped] else [])
                @ [Creating params, ErrorDuring m]\<rparr>, False))
   \<and> ((loaded (coll w) \<longrightarrow> fault Release = None) \<and> fault HasIndex = None
        \<and> (index (coll w) \<noteq> None \<longrightarrow> fault DropIndex = None)
        \<and> fault (CreateIndex ''vector'' params) = None \<and> fault Load = Some m \<longrightarrow>
        replace_index fault name index_params w =
          (w\<lparr>coll := \<lparr>loaded = False, index = Some params\<rparr>,
             calls := calls w @ [OpenCollection name, IsLoaded]
                @ (if loaded (coll w) then [Release] else []) @ [HasIndex]
                @ (if index (coll w) \<noteq> None then [DropIndex] else [])
                @ [CreateIndex ''vector'' params, Load],
             stdout := stdout w @ (if loaded (coll w) then [Releasing] else [])
                @ (if index (coll w) \<noteq> None then [Dropping, Dropped] else [])
                @ [Creating params, Created, Loading, ErrorDuring m]\<rparr>, False))"
  using assms by (auto simp: replace_index_defs)


text \<open>
  A loaded, indexed collection and a store that fails one call with \<^verbatim>\<open>timeout\<close>: the
  release, the drop, the creation, the load in turn.
\<close>

theorem replace_index_step_failure_witness:
  "replace_index (\<lambda>c. if c = Release then Some ''timeout'' else None) ''SOICT'' None
      \<lparr>coll = \<lparr>loaded = True, index = Some default_index_params\<rparr>, calls = [], stdout = []\<rparr>
    = (\<lparr>coll = \<lparr>loaded = True, index = Some default_index_params\<rparr>,
        calls = [OpenCollection ''SOICT'', IsLoaded, Release],
        stdout = [Releasing, ErrorDuring ''timeout'']\<rparr>, False)
   \<and> replace_index (\<lambda>c. if c = DropIndex then Some ''timeout'' else None) ''SOICT'' None
      \<lparr>coll = \<lparr>loaded = True, index = Some default_index_params\<rparr>, calls = [], stdout = []\<rparr>
    = (\<lparr>coll = \<lparr>loaded = False, index = Some default_index_params\<rparr>,
        calls = [OpenCollection ''SOICT'', IsLoaded, Release, HasIndex, DropIndex],
        stdout = [Releasing, Dropping, ErrorDuring ''timeout'']\<rparr>, False)
   \<and> replace_index (\<lambda>c. if c = CreateIndex ''vector'' default_index_params then Some ''timeout'' else None)
      ''SOICT'' None
      \<lparr>coll = \<lparr>loaded = True, index = Some default_index_params\<rparr>, calls = [], stdout = []\<rparr>
    = (\<lparr>coll = \<lparr>loaded = False, index = None\<rparr>,
        calls = [OpenCollection ''SOICT'', IsLoaded, Release, HasIndex, DropIndex,
                 CreateIndex ''vector'' default_index_params],
        stdout = [Releasing, Dropping, Dropped, Creating default_index_params,
                  ErrorDuring ''timeout'']\<rparr>, False)
   \<and> replace_index (\<lambda>c. if c = Load then Some ''timeout'' else None) ''SOICT'' None
      \<lparr>coll = \<lparr>loaded = True, index = Some default_index_params\<rparr>, calls = [], stdout = []\<rparr>
    = (\<lparr>coll = \<lparr>loaded = False, index = Some default_index_params\<rparr>,
        calls = [OpenCollection ''SOICT'', IsLoaded, Release, HasIndex, DropIndex,
                 CreateIndex ''vector'' default_index_params, Load],
        stdout = [Releasing, Dropping, Dropped, Creating default_index_params, Created, Loading,
                  ErrorDuring ''timeout'']\<rparr>, False)"
proof -
  let ?w = "\<lparr>coll = \<lparr>loaded = True, index = Some default_index_params\<rparr>, calls = [], stdout = []\<rparr>"
  have p: "default_index_params = (case None of None \<Rightarrow> default_index_params | Some p \<Rightarrow> p)"
    by simp
  note t = replace_index_step_failure [where index_params = None
      and params = default_index_params and name = "''SOICT''" and w = ?w and m = "''timeout''",
      OF p]
  show ?thesis
    using t [of "\<lambda>c. if c = Release then Some ''timeout'' else None"]
      t [of "\<lambda>c. if c = DropIndex then Some ''timeout'' else None"]
      t [of "\<lambda>c. if c = CreateIndex ''vector'' default_index_params then Some ''timeout'' else None"]
      t [of "\<lambda>c. if c = Load then Some ''timeout'' else None"]
    by simp
qed


text \<open>
  Claim C9 as stated has the report identify the step that failed. On a loaded
  collection, a release that raises and a \<^verbatim>\<open>has_index\<close> query that raises after a
  successful release are reported alike: the same value returned, the same lines
  printed; only the calls made differ.
\<close>

theorem step_not_identified_counterexample:
  "replace_index (\<lambda>c. if c = Release then Some ''unavailable'' else None) ''SOICT'' None
      \<lparr>coll = \<lparr>loaded = True, index = Some default_index_params\<rparr>, calls = [], stdout = []\<rparr>
    = (\<lparr>coll = \<lparr>loaded = True, index = Some default_index_params\<rparr>,
        calls = [OpenCollection ''SOICT'', IsLoaded, Release],
        stdout = [Releasing, ErrorDuring ''unavailable'']\<rparr>, False)
   \<and> replace_index (\<lambda>c. if c = HasIndex then Some ''unavailable'' else None) ''SOICT'' None
      \<lparr>coll = \<lparr>loaded = True, index = Some default_index_params\<rparr>, calls = [], stdout = []\<rparr>
    = (\<lparr>coll = \<lparr>loaded = False, index = Some default_index_params\<rparr>,
        calls = [OpenCollection ''SOICT'', IsLoaded, Release, HasIndex],
        stdout = [Releasing, ErrorDuring ''unavailable'']\<rparr>, False)"
  by (simp add: replace_index_defs)

section \<open>Ingestion: reporting the workers' results\<close>

lemma check_results_eq:
  "check_results results (length results) =
     (if \<exists>r \<in> set results. \<not> fst r
      then ([InsertedCount (length (filter fst results)) (length results), FailedBatches]
              @ map (\<lambda>r. Printed (snd r)) (filter (\<lambda>r. \<not> fst r) results),
            Inl (Exception ''Some batches failed to insert''))
      else ([InsertedCount (length results) (length results)], Inr ()))"
proof -
  have f: "(\<lambda>(success, _). success) = fst" "(\<lambda>(success, error). \<not> success) = (\<lambda>r. \<not> fst r)"
    "(\<lambda>(success, error). Printed error) = (\<lambda>r. Printed (snd r))"
    by (auto simp: fun_eq_iff)
  have l: "length (filter fst results) < length results \<longleftrightarrow> (\<exists>r \<in> set results. \<not> fst r)"
    by (metis filter_True length_filter_le length_filter_less linorder_not_le)
  have e: "length (filter fst results) = length results" if "\<not> (\<exists>r \<in> set results. \<not> fst r)"
    using that by simp
  show ?thesis
    using l e by (simp add: check_results_def Let_def f)
qed

lemma insert_all_report_aux:
  assumes "prepare_batches name chunk_id corpus_embedding batch_size = Inr batches"
    and "results = map worker batches"
  shows "insert_all worker cpu_count name chunk_id corpus_embedding batch_size =
     (batches,
      if \<exists>r \<in> set results. \<not> fst r
      then [StartingInsertion (min 4 cpu_count),
            InsertedCount (length (filter fst results)) (length batches), FailedBatches]
              @ map (\<lambda>r. Printed (snd r)) (filter (\<lambda>r. \<not> fst r) results)
      else [StartingInsertion (min 4 cpu_count),
            InsertedCount (length (filter fst results)) (length batches)],
      if \<exists>r \<in> set results. \<not> fst r
      then Inl (Exception ''Some batches failed to insert'')
      else Inr ())"
proof -
  have c: "check_results (map worker batches) (length batches) =
     (if \<exists>r \<in> set (map worker batches). \<not> fst r
      then ([InsertedCount (length (filter fst (map worker batches))) (length batches), FailedBatches]
              @ map (\<lambda>r. Printed (snd r)) (filter (\<lambda>r. \<not> fst r) (map worker batches)),
            Inl (Exception ''Some batches failed to insert''))
      else ([InsertedCount (length (filter fst (map worker batches))) (length batches)], Inr ()))"
    using check_results_eq [of "map worker batches"] by (simp del: set_map)
  show ?thesis
    unfolding assms(2) insert_all_def using assms(1) by (simp only: c sum.case Let_def prod.case if_distrib) auto
qed

text \<open>
  Claim C1, amended. When the batches have been handed to the workers, the count that
  \<^verbatim>\<open>main\<close> prints is the number of results whose \<^verbatim>\<open>success\<close> is true. The operation
  raises if and only if some batch failed; the exception is always
  \<^verbatim>\<open>Exception("Some batches failed to insert")\<close>, and the failed batches are reported by
  printing, before the raise, the count and then the error of every failed batch in batch
  order. The successes are counted and printed in that case too. The check is a function of the results alone: it makes
  no call to the store, so nothing inserted is rolled back.
\<close>

theorem insert_all_report:
  assumes "prepare_batches name chunk_id corpus_embedding batch_size = Inr batches"
    and "results = map worker batches"
  shows "insert_all worker cpu_count name chunk_id corpus_embedding batch_size =
     (batches,
      if \<exists>r \<in> set results. \<not> fst r
      then [StartingInsertion (min 4 cpu_count),
            InsertedCount (length (filter fst results)) (length batches), FailedBatches]
              @ map (\<lambda>r. Printed (snd r)) (filter (\<lambda>r. \<not> fst r) results)
      else [StartingInsertion (min 4 cpu_count),
            InsertedCount (length (filter fst results)) (length batches)],
      if \<exists>r \<in> set results. \<not> fst r
      then Inl (Exception ''Some batches failed to insert'')
      else Inr ())"
  using assms by (rule insert_all_report_aux)

text \<open>
  The scenario of the specification: ids \<open>1, 2, 3, 4\<close>, batch size \<open>2\<close>, the second batch
  fails. One success is counted and the range \<open>2:4\<close> is reported with its message.
\<close>

theorem insert_all_report_witness:
  "prepare_batches ''SOICT'' [1, 2, 3, 4] [10, 20, 30, 40 :: nat] 2
     = Inr [(''SOICT'', 0, 2, [1, 2], [10, 20]), (''SOICT'', 2, 4, [3, 4], [30, 40])]
   \<and> insert_all (\<lambda>b. if start_idx b = 2 then (False, Some ''Error inserting batch 2:4: boom'')
                      else (True, None))
        8 ''SOICT'' [1, 2, 3, 4] [10, 20, 30, 40 :: nat] 2
     = ([(''SOICT'', 0, 2, [1, 2], [10, 20]), (''SOICT'', 2, 4, [3, 4], [30, 40])],
        [StartingInsertion 4, InsertedCount 1 2, FailedBatches, Printed (Some ''Error inserting batch 2:4: boom'')],
        Inl (Exception ''Some batches failed to insert''))"
proof -
  have e: "prepare_batches ''SOICT'' [1, 2, 3, 4] [10, 20, 30, 40 :: nat] 2 =
     Inr [(''SOICT'', 0, 2, [1, 2], [10, 20]), (''SOICT'', 2, 4, [3, 4], [30, 40])]"
    by (simp add: prepare_batches_def py_range_def range_up.simps make_batch_def py_slice_def
        clip_def Let_def)
  show ?thesis
    using e insert_all_report [OF e refl,
        of "\<lambda>b. if start_idx b = 2 then (False, Some ''Error inserting batch 2:4: boom'')
                      else (True, None)" 8]
    by (simp add: start_idx_def)
qed

text \<open>
  Claim C1 as stated has the raised error enumerate the failed ranges and messages. The
  exception raised is the same whichever batch failed and whatever its message.
\<close>

theorem batch_failure_exception_counterexample:
  "snd (check_results [(True, None), (False, Some ''Error inserting batch 2:4: boom'')] 2)
     = Inl (Exception ''Some batches failed to insert'')
   \<and> snd (check_results [(False, Some ''Error inserting batch 0:2: bang''), (True, None)] 2)
     = Inl (Exception ''Some batches failed to insert'')"
  by (simp add: check_results_def)

text \<open>
  Claim C8, amended. \<^verbatim>\<open>main\<close> does not compare the lengths of the ids and of the
  vectors. For every positive batch size the batches are cut from the length of the id
  list alone, each batch takes the slice of the vectors between the same offsets (clipped
  to the vectors there are), every batch is handed to a worker, and the operation fails
  only when a worker reports failure, with the exception of the result check.
\<close>

theorem insert_all_no_length_check:
  fixes chunk_id :: "int list" and corpus_embedding :: "'v list"
  assumes "0 < batch_size"
  shows "\<exists>batches out r.
       insert_all worker cpu_count name chunk_id corpus_embedding batch_size = (batches, out, r)
     \<and> length batches = nat ((int (length chunk_id) + batch_size - 1) div batch_size)
     \<and> (\<forall>k < length batches.
            start_idx (batches ! k) = int k * batch_size
          \<and> end_idx (batches ! k) = min (int k * batch_size + batch_size) (int (length chunk_id))
          \<and> batch_embeddings (batches ! k)
              = py_slice corpus_embedding (start_idx (batches ! k)) (end_idx (batches ! k)))
     \<and> (r = Inr () \<longleftrightarrow> (\<forall>b \<in> set batches. fst (worker b)))
     \<and> (r \<noteq> Inr () \<longrightarrow> r = Inl (Exception ''Some batches failed to insert''))"
proof -
  define batches where "batches =
    map (\<lambda>k. make_batch name chunk_id corpus_embedding batch_size (int k * batch_size))
      [0..<nat ((int (length chunk_id) + batch_size - 1) div batch_size)]"
  have pb: "prepare_batches name chunk_id corpus_embedding batch_size = Inr batches"
    using prepare_batches_closed [OF assms] by (simp add: batches_def)
  obtain out r where ia: "insert_all worker cpu_count name chunk_id corpus_embedding batch_size = (batches, out, r)"
    and r: "r = (if \<exists>x \<in> set (map worker batches). \<not> fst x
      then Inl (Exception ''Some batches failed to insert'') else Inr ())"
    using insert_all_report_aux [OF pb refl, of worker cpu_count] by blast
  have "r = Inr () \<longleftrightarrow> (\<forall>b \<in> set batches. fst (worker b))"
    using r by auto
  moreover have "r \<noteq> Inr () \<longrightarrow> r = Inl (Exception ''Some batches failed to insert'')"
    using r by auto
  moreover have "length batches = nat ((int (length chunk_id) + batch_size - 1) div batch_size)"
    by (simp add: batches_def)
  moreover have "\<forall>k < length batches.
            start_idx (batches ! k) = int k * batch_size
          \<and> end_idx (batches ! k) = min (int k * batch_size + batch_size) (int (length chunk_id))
          \<and> batch_embeddings (batches ! k)
              = py_slice corpus_embedding (start_idx (batches ! k)) (end_idx (batches ! k))"
    by (simp add: batches_def)
  ultimately show ?thesis using ia by blast
qed


text \<open>
  Claim C8 as stated: three ids and one vector. Both batches are handed to the workers,
  the second with no vector at all, and when the workers succeed the operation succeeds.
\<close>

theorem length_mismatch_counterexample:
  "length [1, 2, 3 :: int] \<noteq> length [10 :: nat]
   \<and> insert_all (\<lambda>b. (True, None)) 8 ''SOICT'' [1, 2, 3] [10 :: nat] 2
     = ([(''SOICT'', 0, 2, [1, 2], [10]), (''SOICT'', 2, 3, [3], [])],
        [StartingInsertion 4, InsertedCount 2 2], Inr ())"
  by (simp add: insert_all_def prepare_batches_def py_range_def range_up.simps make_batch_def
      py_slice_def clip_def Let_def check_results_def)

text \<open>
  The same input: two batches, no failure.
\<close>

theorem insert_all_no_length_check_witness:
  "0 < (2::int)
   \<and> (\<exists>batches out r.
       insert_all (\<lambda>b. (True, None)) 8 ''SOICT'' [1, 2, 3] [10 :: nat] 2 = (batches, out, r)
     \<and> length batches = 2 \<and> r = Inr ())"
proof -
  have h: "0 < (2::int)" by simp
  show ?thesis
    using h insert_all_no_length_check [OF h, of "\<lambda>b. (True, None)" 8 "''SOICT''" "[1, 2, 3]" "[10 :: nat]"]
    by auto
qed

section \<open>The connection context manager of index.py and query.py\<close>



























section \<open>The connection context manager of db_insertion.py\<close>












lemma with_ingest_connection_no_attempt:
  assumes "retries cfg \<le> 0"
  shows "with_ingest_connection env cfg InLoop body w
     = (w, Raises (RuntimeError ''generator didn't yield''))"
  using assms
  by (simp add: with_ingest_connection_def with_stmt_def ingest_connection_start_def
      ingest_finally_def at_end_def ingest_connection_loop.simps)














end
